theory Spec2Isabelle
  imports Main "HOL-Library.Sublist" "HOL-Library.Word"
begin

section \<open>Exceptions of the program as values\<close>

text \<open>
  \<^verbatim>\<open>lib.cc\<close> signals failure through C++ exceptions: \<^verbatim>\<open>std::runtime_error\<close>
  with a message (thrown by the program itself), \<^verbatim>\<open>std::out_of_range\<close> (thrown by
  \<^verbatim>\<open>std::string::at\<close>, \<^verbatim>\<open>std::string::substr\<close> and \<^verbatim>\<open>std::stoi\<close>) and
  \<^verbatim>\<open>std::invalid_argument\<close> (thrown by \<^verbatim>\<open>std::stoi\<close>). The last constructor marks
  what the C++ standard leaves undefined. A function that can throw returns
  \<open>error + 'a\<close>, with \<open>Inl\<close> for the exception.
\<close>

datatype error =
  RuntimeError string
  | OutOfRange
  | InvalidArgument
  | UndefinedBehaviour

section \<open>\<^verbatim>\<open>std::string\<close> operations\<close>

definition at :: "string \<Rightarrow> nat \<Rightarrow> error + char" where
  "at s i = (if i < length s then Inr (s ! i) else Inl OutOfRange)"

text \<open>\<^verbatim>\<open>s.find(pat)\<close>: the first position where \<open>pat\<close> starts, \<open>None\<close> for \<^verbatim>\<open>npos\<close>.\<close>

fun find_str :: "string \<Rightarrow> string \<Rightarrow> nat option" where
  "find_str pat [] = (if pat = [] then Some 0 else None)"
| "find_str pat (c # s) =
     (if prefix pat (c # s) then Some 0 else map_option Suc (find_str pat s))"

text \<open>\<^verbatim>\<open>s.rfind(pat)\<close>: the last position where \<open>pat\<close> starts.\<close>

fun rfind_str :: "string \<Rightarrow> string \<Rightarrow> nat option" where
  "rfind_str pat [] = (if pat = [] then Some 0 else None)"
| "rfind_str pat (c # s) =
     (case rfind_str pat s of
        Some i \<Rightarrow> Some (Suc i)
      | None \<Rightarrow> if prefix pat (c # s) then Some 0 else None)"

section \<open>Status counters: \<^verbatim>\<open>parse_stats\<close>\<close>

text \<open>
  The struct \<^verbatim>\<open>GStats\<close> is declared in \<^verbatim>\<open>lib.h\<close>; \<^verbatim>\<open>lib.cc\<close> shows its four
  counters (printed in the order staged, conflicts, changed, untracked) and that a
  fresh value is incremented from there. The counters are held as natural numbers.
\<close>

record GStats =
  staged :: nat
  conflicts :: nat
  changed :: nat
  untracked :: nat

text \<open>
  Modelled from the spec: the default constructor of \<^verbatim>\<open>GStats\<close> (in \<^verbatim>\<open>lib.h\<close>) is
  missing; the four counters start at zero.
\<close>

definition GStats_init :: GStats where
  "GStats_init = \<lparr>staged = 0, conflicts = 0, changed = 0, untracked = 0\<rparr>"

text \<open>
  Modelled from the spec: \<^verbatim>\<open>hash_two_places\<close> (in \<^verbatim>\<open>lib.h\<close>) and the constants
  \<^verbatim>\<open>HASH_CASE_XY\<close> (in \<^verbatim>\<open>const.h\<close>) are missing. The spec says that the switch
  inspects the two-character pair at the start of the line and that the seven cases
  are the pairs AA, AU, DD, DU, UA, UD, UU; so the hash is the pair of the first two
  characters, read with bounds checking, and each constant is the pair it is named
  after.
\<close>

definition hash_two_places :: "string \<Rightarrow> error + char \<times> char" where
  "hash_two_places word =
     (case at word 0 of
        Inl e \<Rightarrow> Inl e
      | Inr a \<Rightarrow> (case at word 1 of Inl e \<Rightarrow> Inl e | Inr b \<Rightarrow> Inr (a, b)))"

definition HASH_CASE_AA :: "char \<times> char" where "HASH_CASE_AA = (CHR ''A'', CHR ''A'')"
definition HASH_CASE_AU :: "char \<times> char" where "HASH_CASE_AU = (CHR ''A'', CHR ''U'')"
definition HASH_CASE_DD :: "char \<times> char" where "HASH_CASE_DD = (CHR ''D'', CHR ''D'')"
definition HASH_CASE_DU :: "char \<times> char" where "HASH_CASE_DU = (CHR ''D'', CHR ''U'')"
definition HASH_CASE_UA :: "char \<times> char" where "HASH_CASE_UA = (CHR ''U'', CHR ''A'')"
definition HASH_CASE_UD :: "char \<times> char" where "HASH_CASE_UD = (CHR ''U'', CHR ''D'')"
definition HASH_CASE_UU :: "char \<times> char" where "HASH_CASE_UU = (CHR ''U'', CHR ''U'')"

lemmas HASH_CASE_defs =
  HASH_CASE_AA_def HASH_CASE_AU_def HASH_CASE_DD_def HASH_CASE_DU_def
  HASH_CASE_UA_def HASH_CASE_UD_def HASH_CASE_UU_def

text \<open>
  The body of the \<^verbatim>\<open>for\<close> loop of \<^verbatim>\<open>parse_stats\<close>, for the line \<open>i\<close>: the test for
  \<^verbatim>\<open>'?'\<close> with its \<^verbatim>\<open>continue\<close>, the switch on the hash with its \<^verbatim>\<open>continue\<close>, then
  the two switches on \<^verbatim>\<open>i->at(0)\<close> and \<^verbatim>\<open>i->at(1)\<close>, which both run.
\<close>

definition parse_stats_body :: "GStats \<Rightarrow> string \<Rightarrow> error + GStats" where
  "parse_stats_body stats i =
     (case at i 0 of
        Inl e \<Rightarrow> Inl e
      | Inr q \<Rightarrow>
          if q = CHR ''?'' then Inr (stats\<lparr>untracked := untracked stats + 1\<rparr>)
          else
            (case hash_two_places i of
               Inl e \<Rightarrow> Inl e
             | Inr h \<Rightarrow>
                 if h = HASH_CASE_AA \<or> h = HASH_CASE_AU \<or> h = HASH_CASE_DD \<or> h = HASH_CASE_DU
                    \<or> h = HASH_CASE_UA \<or> h = HASH_CASE_UD \<or> h = HASH_CASE_UU
                 then Inr (stats\<lparr>conflicts := conflicts stats + 1\<rparr>)
                 else
                   (case at i 0 of
                      Inl e \<Rightarrow> Inl e
                    | Inr a \<Rightarrow>
                        let stats1 =
                          (if a = CHR ''A'' \<or> a = CHR ''C'' \<or> a = CHR ''D'' \<or> a = CHR ''M''
                              \<or> a = CHR ''R''
                           then stats\<lparr>staged := staged stats + 1\<rparr> else stats)
                        in
                          (case at i 1 of
                             Inl e \<Rightarrow> Inl e
                           | Inr b \<Rightarrow>
                               Inr (if b = CHR ''C'' \<or> b = CHR ''D'' \<or> b = CHR ''M''
                                       \<or> b = CHR ''R''
                                    then stats1\<lparr>changed := changed stats1 + 1\<rparr>
                                    else stats1)))))"

fun parse_stats_loop :: "GStats \<Rightarrow> string list \<Rightarrow> error + GStats" where
  "parse_stats_loop stats [] = Inr stats"
| "parse_stats_loop stats (i # rest) =
     (case parse_stats_body stats i of
        Inl e \<Rightarrow> Inl e
      | Inr stats' \<Rightarrow> parse_stats_loop stats' rest)"

definition parse_stats :: "string list \<Rightarrow> error + GStats" where
  "parse_stats lines = parse_stats_loop GStats_init lines"

section \<open>Characters and numbers\<close>

text \<open>\<^verbatim>\<open>std::isspace\<close> and \<^verbatim>\<open>std::isdigit\<close> in the C locale.\<close>

definition isspace :: "char \<Rightarrow> bool" where
  "isspace c = (c = CHR '' '' \<or> c = CHR 0x09 \<or> c = CHR 0x0A \<or> c = CHR 0x0B
                \<or> c = CHR 0x0C \<or> c = CHR 0x0D)"

definition isdigit :: "char \<Rightarrow> bool" where
  "isdigit c = (c \<in> set ''0123456789'')"

definition digit_value :: "char \<Rightarrow> int" where
  "digit_value c = int (of_char c) - 48"

definition digits_value :: "string \<Rightarrow> int" where
  "digits_value ds = foldl (\<lambda>a c. 10 * a + digit_value c) 0 ds"

text \<open>
  \<^verbatim>\<open>std::stoi(str)\<close> in base 10: leading white space is skipped, one sign is
  accepted, then the longest run of digits is read and what follows is ignored. No
  digit is \<^verbatim>\<open>std::invalid_argument\<close>; a value outside the 32-bit \<^verbatim>\<open>int\<close> is
  \<^verbatim>\<open>std::out_of_range\<close>.
\<close>

definition stoi :: "string \<Rightarrow> error + int" where
  "stoi str =
     (let s1 = dropWhile isspace str;
          neg = (s1 \<noteq> [] \<and> hd s1 = CHR ''-'');
          s2 = (if s1 \<noteq> [] \<and> (hd s1 = CHR ''-'' \<or> hd s1 = CHR ''+'') then tl s1 else s1);
          ds = takeWhile isdigit s2;
          v = (if neg then - digits_value ds else digits_value ds)
      in if ds = [] then Inl InvalidArgument
         else if v < - (2 ^ 31) \<or> 2 ^ 31 - 1 < v then Inl OutOfRange
         else Inr v)"

text \<open>\<^verbatim>\<open>std::to_string\<close> of an unsigned and of a signed value: decimal digits.\<close>

fun to_string :: "nat \<Rightarrow> string" where
  "to_string n =
     (if n < 10 then [''0123456789'' ! n]
      else to_string (n div 10) @ [''0123456789'' ! (n mod 10)])"

declare to_string.simps [simp del]

definition to_string_int :: "int \<Rightarrow> string" where
  "to_string_int i = (if i < 0 then ''-'' @ to_string (nat (- i)) else to_string (nat i))"

section \<open>The file system and input streams\<close>

text \<open>
  What the program observes of its surroundings. \<^verbatim>\<open>file_exists\<close> and
  \<^verbatim>\<open>file_is_dir\<close> are declared in \<^verbatim>\<open>lib.h\<close> and their bodies are missing, so they are
  taken as they answer; \<open>file_open\<close> gives the bytes of a file that a
  \<^verbatim>\<open>std::ifstream\<close> opens, \<open>None\<close> when the stream does not open; \<open>getcwd\<close> is the
  result of \<^verbatim>\<open>getcwd(3)\<close>, \<open>None\<close> when it fails.
\<close>

record filesystem =
  getcwd :: "string option"
  file_exists :: "string \<Rightarrow> bool"
  file_is_dir :: "string \<Rightarrow> bool"
  file_open :: "string \<Rightarrow> string option"

text \<open>
  A \<^verbatim>\<open>std::ifstream\<close>: the bytes still to be read and the two state bits the
  program can meet. \<^verbatim>\<open>good()\<close> holds when no bit is set.
\<close>

record ifstream =
  buf :: string
  eofbit :: bool
  failbit :: bool

definition good :: "ifstream \<Rightarrow> bool" where
  "good fin = (\<not> eofbit fin \<and> \<not> failbit fin)"

definition ifstream_open :: "filesystem \<Rightarrow> string \<Rightarrow> ifstream" where
  "ifstream_open env path =
     (case file_open env path of
        Some content \<Rightarrow> \<lparr>buf = content, eofbit = False, failbit = False\<rparr>
      | None \<Rightarrow> \<lparr>buf = [], eofbit = False, failbit = True\<rparr>)"

text \<open>
  \<^verbatim>\<open>fin >> str\<close>: on a stream that is not good, or that holds white space only, the
  extraction fails and \<open>str\<close> keeps its value; otherwise \<open>str\<close> becomes the characters
  up to the next white space, and reaching the end of the file sets \<^verbatim>\<open>eofbit\<close>.
\<close>

definition extract_string :: "ifstream \<Rightarrow> string \<Rightarrow> ifstream \<times> string" where
  "extract_string fin str =
     (if \<not> good fin then (fin\<lparr>failbit := True\<rparr>, str)
      else
        let rest = dropWhile isspace (buf fin) in
        if rest = [] then (fin\<lparr>buf := [], eofbit := True, failbit := True\<rparr>, str)
        else
          let rest' = dropWhile (\<lambda>c. \<not> isspace c) rest in
          (fin\<lparr>buf := rest', eofbit := (rest' = [])\<rparr>, takeWhile (\<lambda>c. \<not> isspace c) rest))"

text \<open>
  \<^verbatim>\<open>std::getline(fin, str)\<close>: the characters up to the next newline, which is consumed;
  at the end of the file \<^verbatim>\<open>eofbit\<close> is set, and \<^verbatim>\<open>failbit\<close> too when nothing was read.
\<close>

definition getline :: "ifstream \<Rightarrow> string \<Rightarrow> ifstream \<times> string" where
  "getline fin str =
     (if \<not> good fin then (fin\<lparr>failbit := True\<rparr>, str)
      else
        let line = takeWhile (\<lambda>c. c \<noteq> CHR 0x0A) (buf fin);
            rest = dropWhile (\<lambda>c. c \<noteq> CHR 0x0A) (buf fin)
        in if rest = [] then (fin\<lparr>buf := [], eofbit := True, failbit := (line = [])\<rparr>, line)
           else (fin\<lparr>buf := tl rest\<rparr>, line))"

section \<open>Paths\<close>

text \<open>
  Modelled from the spec: \<^verbatim>\<open>join\<close>, \<^verbatim>\<open>dirname\<close> and \<^verbatim>\<open>basename\<close> are declared in
  \<^verbatim>\<open>lib.h\<close> and their bodies are missing. The spec has the resolver move to the parent
  directory and compare the base name of a path with the name of the metadata
  directory; paths are strings with \<^verbatim>\<open>/\<close> between components: \<open>join\<close> puts one
  separator between its arguments, \<open>dirname\<close> drops the last component (the root is its
  own parent) and \<open>basename\<close> is the last component.
\<close>

definition join :: "string \<Rightarrow> string \<Rightarrow> string" where
  "join a b = (if a \<noteq> [] \<and> last a = CHR ''/'' then a @ b else a @ ''/'' @ b)"

definition dirname :: "string \<Rightarrow> string" where
  "dirname path =
     (let d = rev (drop 1 (dropWhile (\<lambda>c. c \<noteq> CHR ''/'') (rev path)))
      in if d = [] then ''/'' else d)"

definition basename :: "string \<Rightarrow> string" where
  "basename path = rev (takeWhile (\<lambda>c. c \<noteq> CHR ''/'') (rev path))"

lemma dirname_shorter:
  assumes "dirname path \<noteq> ''/''"
  shows "length (dirname path) < length path"
proof -
  let ?r = "dropWhile (\<lambda>c. c \<noteq> CHR ''/'') (rev path)"
  from assms have d: "dirname path = rev (drop 1 ?r)" and ne: "drop 1 ?r \<noteq> []"
    by (auto simp: dirname_def Let_def split: if_splits)
  from ne have "length (drop 1 ?r) < length ?r" by (cases ?r) auto
  also have "length ?r \<le> length (rev path)" by (rule length_dropWhile_le)
  finally show ?thesis by (simp add: d)
qed

section \<open>Locating the repository: \<^verbatim>\<open>find_git_root\<close>\<close>

text \<open>
  The \<^verbatim>\<open>while\<close> loop of \<^verbatim>\<open>find_git_root\<close> on its two variables. It ends because every
  step shortens \<open>cwd\<close> or makes it the root.
\<close>

function find_git_root_loop :: "filesystem \<Rightarrow> string \<Rightarrow> string \<Rightarrow> error + string" where
  "find_git_root_loop env cwd git_path =
     (if cwd \<noteq> ''/'' then
        (if file_exists env git_path then Inr git_path
         else find_git_root_loop env (dirname cwd) (join (dirname cwd) ''.git''))
      else Inl (RuntimeError ''Could not find a git directory!''))"
  by pat_completeness auto
termination
proof (relation "measure (\<lambda>(env, cwd, git_path). if cwd = ''/'' then 0 else Suc (length cwd))")
  show "wf (measure (\<lambda>(env, cwd, git_path). if cwd = ''/'' then 0 else Suc (length cwd)))"
    by simp
next
  fix env :: filesystem and cwd git_path :: string
  assume "cwd \<noteq> ''/''" "\<not> file_exists env git_path"
  then show "((env, dirname cwd, join (dirname cwd) ''.git''), (env, cwd, git_path))
      \<in> measure (\<lambda>(env, cwd, git_path). if cwd = ''/'' then 0 else Suc (length cwd))"
    using dirname_shorter[of cwd] by auto
qed

declare find_git_root_loop.simps [simp del]

definition get_cwd :: "filesystem \<Rightarrow> error + string" where
  "get_cwd env =
     (case getcwd env of
        None \<Rightarrow> Inl (RuntimeError ''Unable to get CWD'')
      | Some d \<Rightarrow> Inr d)"

definition find_git_root :: "filesystem \<Rightarrow> error + string" where
  "find_git_root env =
     (case get_cwd env of
        Inl e \<Rightarrow> Inl e
      | Inr cwd \<Rightarrow> find_git_root_loop env cwd (join cwd ''.git''))"

section \<open>The header line: \<^verbatim>\<open>parse_branch\<close> and \<^verbatim>\<open>parse_remote\<close>\<close>

text \<open>
  \<^verbatim>\<open>s.substr(pos)\<close> and \<^verbatim>\<open>s.substr(pos, count)\<close>: \<^verbatim>\<open>std::out_of_range\<close> when \<open>pos\<close> is
  beyond the end, and \<open>count\<close> is cut to what is left.
\<close>

definition substr :: "string \<Rightarrow> nat \<Rightarrow> error + string" where
  "substr s pos = (if length s < pos then Inl OutOfRange else Inr (drop pos s))"

definition substr_count :: "string \<Rightarrow> nat \<Rightarrow> nat \<Rightarrow> error + string" where
  "substr_count s pos count =
     (if length s < pos then Inl OutOfRange else Inr (take count (drop pos s)))"

text \<open>
  The struct \<^verbatim>\<open>GBranch\<close> of \<^verbatim>\<open>lib.h\<close>, with the three fields that \<^verbatim>\<open>lib.cc\<close> reads
  and writes; \<open>local\<close> is assigned 0 and 1 only and is printed with
  \<^verbatim>\<open>std::to_string\<close>. The struct \<^verbatim>\<open>GRemote\<close> holds what \<^verbatim>\<open>std::stoi\<close> returned.
\<close>

record GBranch =
  branch :: string
  upstream :: string
  local :: nat

record GRemote =
  ahead :: int
  behind :: int

text \<open>
  Modelled from the spec: the default constructors of \<^verbatim>\<open>GBranch\<close> and \<^verbatim>\<open>GRemote\<close> (in
  \<^verbatim>\<open>lib.h\<close>) are missing. The spec has \<open>upstream\<close> empty when there is none, and
  \<open>ahead\<close> and \<open>behind\<close> default to zero.
\<close>

definition GBranch_init :: GBranch where
  "GBranch_init = \<lparr>branch = [], upstream = [], local = 0\<rparr>"

definition GRemote_init :: GRemote where
  "GRemote_init = \<lparr>ahead = 0, behind = 0\<rparr>"

definition parse_branch :: "filesystem \<Rightarrow> string \<Rightarrow> string \<Rightarrow> error + GBranch" where
  "parse_branch env branch_line head_file =
     (case substr branch_line 3 of
        Inl e \<Rightarrow> Inl e
      | Inr temp0 \<Rightarrow>
          let result = GBranch_init\<lparr>local := 1\<rparr>;
              temp = (case rfind_str '' ['' temp0 of
                        Some found \<Rightarrow> take found temp0
                      | None \<Rightarrow> temp0)
          in
            (case find_str ''...'' temp of
               Some found \<Rightarrow>
                 Inr (result\<lparr>branch := take found temp,
                             upstream := drop (found + 3) temp,
                             local := 0\<rparr>)
             | None \<Rightarrow>
                 if find_str ''(no branch)'' temp \<noteq> None then
                   (let fin = ifstream_open env head_file in
                    if good fin
                    then Inr (result\<lparr>local := 0,
                                     branch := snd (extract_string fin (branch result))\<rparr>)
                    else Inl (RuntimeError ''Failed to get hash!''))
                 else if find_str ''Initial commit'' temp \<noteq> None
                         \<or> find_str ''No commits yet'' temp \<noteq> None then
                   Inr (result\<lparr>branch :=
                          (case rfind_str '' '' temp of
                             Some found \<Rightarrow> drop (found + 1) temp
                           | None \<Rightarrow> temp)\<rparr>)
                 else Inr (result\<lparr>branch := temp\<rparr>)))"

text \<open>
  The inner \<^verbatim>\<open>while\<close> loop of \<^verbatim>\<open>parse_remote\<close>: the first character of \<open>temp\<close> goes to
  \<open>part\<close> whatever it is, and the loop goes on while the next character is a digit.
\<close>

fun scan_part :: "string \<Rightarrow> string \<Rightarrow> string \<times> string" where
  "scan_part part [] = (part, [])"
| "scan_part part (c # temp) =
     (if temp = [] \<or> \<not> isdigit (hd temp) then (part @ [c], temp)
      else scan_part (part @ [c]) temp)"

text \<open>
  The block guarded by \<^verbatim>\<open>"ahead"\<close>. \<^verbatim>\<open>temp.replace(temp.begin(), temp.begin() + 6, "")\<close>
  removes the first six characters wherever the keyword stands; with fewer than six
  characters the iterator range is not valid.
\<close>

definition parse_remote_ahead :: "GRemote \<Rightarrow> string \<Rightarrow> error + GRemote \<times> string" where
  "parse_remote_ahead remote temp =
     (if length temp \<noteq> 0 \<and> find_str ''ahead'' temp \<noteq> None then
        (if length temp < 6 then Inl UndefinedBehaviour
         else
           (case scan_part [] (drop 6 temp) of
              (part, temp') \<Rightarrow>
                (case stoi part of
                   Inl e \<Rightarrow> Inl e
                 | Inr v \<Rightarrow> Inr (remote\<lparr>ahead := v\<rparr>, temp'))))
      else Inr (remote, temp))"

text \<open>The block guarded by \<^verbatim>\<open>"behind"\<close>, which removes seven characters.\<close>

definition parse_remote_behind :: "GRemote \<Rightarrow> string \<Rightarrow> error + GRemote" where
  "parse_remote_behind remote temp =
     (if length temp \<noteq> 0 \<and> find_str ''behind'' temp \<noteq> None then
        (if length temp < 7 then Inl UndefinedBehaviour
         else
           (case stoi (drop 7 temp) of
              Inl e \<Rightarrow> Inl e
            | Inr v \<Rightarrow> Inr (remote\<lparr>behind := v\<rparr>)))
      else Inr remote)"

definition parse_remote :: "string \<Rightarrow> error + GRemote" where
  "parse_remote branch_line =
     (case find_str '' ['' branch_line of
        None \<Rightarrow> Inr GRemote_init
      | Some found \<Rightarrow>
          (case at branch_line (length branch_line - 1) of
             Inl e \<Rightarrow> Inl e
           | Inr c \<Rightarrow>
               if c \<noteq> CHR '']'' then Inr GRemote_init
               else
                 (case substr_count branch_line (found + 2) (length branch_line - 1) of
                    Inl e \<Rightarrow> Inl e
                  | Inr temp \<Rightarrow>
                      (case parse_remote_ahead GRemote_init temp of
                         Inl e \<Rightarrow> Inl e
                       | Inr (remote, temp1) \<Rightarrow>
                           parse_remote_behind remote
                             (if length temp1 \<noteq> 0 \<and> hd temp1 = CHR '',''
                              then drop 1 temp1 else temp1)))))"

section \<open>Auxiliary state: \<^verbatim>\<open>stash_count\<close> and \<^verbatim>\<open>rebase_progress\<close>\<close>

text \<open>
  The loop of \<^verbatim>\<open>stash_count\<close>. The counter is a \<^verbatim>\<open>std::uint_fast32_t\<close>, 64 bits wide
  on the Linux target of the program; \<open>buffer\<close> is a fresh empty string in every
  round.
\<close>

lemma getline_consumes:
  assumes "good fin" and "good (fst (getline fin str))"
  shows "length (buf (fst (getline fin str))) < length (buf fin)"
proof -
  let ?rest = "dropWhile (\<lambda>c. c \<noteq> CHR 0x0A) (buf fin)"
  have ne: "?rest \<noteq> []"
    using assms by (simp add: getline_def good_def Let_def split: if_splits)
  then have b: "buf (fst (getline fin str)) = tl ?rest"
    using assms(1) by (auto simp: getline_def Let_def)
  from ne have "length (tl ?rest) < length ?rest" by (cases ?rest) auto
  also have "length ?rest \<le> length (buf fin)" by (rule length_dropWhile_le)
  finally show ?thesis by (simp add: b)
qed

function stash_count_loop :: "ifstream \<Rightarrow> 64 word \<Rightarrow> 64 word" where
  "stash_count_loop fin count =
     (if good fin then
        (case getline fin [] of
           (fin', buffer) \<Rightarrow> stash_count_loop fin' (if buffer \<noteq> [] then count + 1 else count))
      else count)"
  by pat_completeness auto
termination
proof (relation "measure (\<lambda>(fin, count). if good fin then Suc (length (buf fin)) else 0)")
  show "wf (measure (\<lambda>(fin, count). if good fin then Suc (length (buf fin)) else 0))"
    by simp
next
  fix fin fin' :: ifstream and count :: "64 word" and buffer :: string
  assume g: "good fin" and p: "(fin', buffer) = getline fin []"
  from p have f: "fin' = fst (getline fin [])" by (metis fst_conv)
  have "(if good fin' then Suc (length (buf fin')) else 0) < Suc (length (buf fin))"
    using getline_consumes[OF g, of "[]"] unfolding f by simp
  with g show "((fin', if buffer \<noteq> [] then count + 1 else count), (fin, count))
      \<in> measure (\<lambda>(fin, count). if good fin then Suc (length (buf fin)) else 0)"
    by simp
qed

declare stash_count_loop.simps [simp del]

definition stash_count :: "filesystem \<Rightarrow> string \<Rightarrow> string" where
  "stash_count env stash_file =
     to_string (unat (stash_count_loop (ifstream_open env stash_file) 0))"

text \<open>
  \<^verbatim>\<open>rebase_progress\<close>: inside the \<^verbatim>\<open>if\<close>, \<open>result\<close> is cleared, \<^verbatim>\<open>last >> temp\<close> and
  \<^verbatim>\<open>next >> result\<close> run, and \<^verbatim>\<open>"/" + temp\<close> is appended.
\<close>

definition rebase_progress :: "filesystem \<Rightarrow> string \<Rightarrow> string" where
  "rebase_progress env rebase_d =
     (let result = ''0'';
          temp = [];
          next_f = ifstream_open env (join rebase_d ''next'');
          last_f = ifstream_open env (join rebase_d ''last'')
      in if good next_f \<and> good last_f
         then
           (let result1 = [];
                temp1 = snd (extract_string last_f temp);
                result2 = snd (extract_string next_f result1)
            in result2 @ (''/'' @ temp1))
         else result)"

section \<open>Paths of the repository: \<^verbatim>\<open>GPaths\<close>\<close>

record GPaths =
  git_root :: string
  tree_d :: string

text \<open>
  The \<^verbatim>\<open>while\<close> loop of \<^verbatim>\<open>set_tree_d\<close>, which walks up until the base name is
  \<^verbatim>\<open>.git\<close>. It has no other exit: on a path with no such component it does not
  return, which is the value \<open>None\<close>.
\<close>

partial_function (option) git_root_loop :: "string \<Rightarrow> string option" where
  "git_root_loop root =
     (if basename root \<noteq> ''.git'' then git_root_loop (dirname root) else Some root)"

definition set_tree_d :: "filesystem \<Rightarrow> GPaths \<Rightarrow> (error + GPaths) option" where
  "set_tree_d env this =
     (let this1 = this\<lparr>tree_d := git_root this\<rparr> in
      if file_is_dir env (tree_d this1) then Some (Inr this1)
      else
        let fin = ifstream_open env (tree_d this1) in
        if \<not> good fin
        then Some (Inl (RuntimeError (''Could not open wotkree file: '' @ tree_d this1)))
        else
          (case extract_string fin (tree_d this1) of
             (fin1, word1) \<Rightarrow>
               (case extract_string fin1 word1 of
                  (fin2, word2) \<Rightarrow>
                    (case git_root_loop word2 of
                       None \<Rightarrow> None
                     | Some root \<Rightarrow> Some (Inr \<lparr>git_root = root, tree_d = word2\<rparr>)))))"

text \<open>
  Modelled from the spec: the constructor of \<^verbatim>\<open>GPaths\<close> (in \<^verbatim>\<open>lib.h\<close>) is missing. The
  spec has the resolver start from the entry that \<^verbatim>\<open>find_git_root\<close> found and resolve
  the worktree indirection, which is what \<^verbatim>\<open>set_tree_d\<close> does.
\<close>

definition GPaths_new :: "filesystem \<Rightarrow> string \<Rightarrow> (error + GPaths) option" where
  "GPaths_new env root = set_tree_d env \<lparr>git_root = root, tree_d = root\<rparr>"

definition GPaths_head :: "GPaths \<Rightarrow> string" where
  "GPaths_head this = join (tree_d this) ''HEAD''"

definition GPaths_merge :: "GPaths \<Rightarrow> string" where
  "GPaths_merge this = join (tree_d this) ''MERGE_HEAD''"

definition GPaths_rebase :: "GPaths \<Rightarrow> string" where
  "GPaths_rebase this = join (tree_d this) ''rebase-apply''"

definition GPaths_stash :: "GPaths \<Rightarrow> string" where
  "GPaths_stash this = join (join (join (git_root this) ''logs'') ''refs'') ''stash''"

section \<open>The output line: \<^verbatim>\<open>current_gitstatus\<close>\<close>

text \<open>The two stream operators that \<^verbatim>\<open>current_gitstatus\<close> uses.\<close>

definition show_GRemote :: "GRemote \<Rightarrow> string" where
  "show_GRemote info = to_string_int (ahead info) @ '' '' @ to_string_int (behind info) @ '' ''"

definition show_GStats :: "GStats \<Rightarrow> string" where
  "show_GStats info =
     to_string (staged info) @ '' '' @ to_string (conflicts info) @ '' ''
       @ to_string (changed info) @ '' '' @ to_string (untracked info) @ '' ''"

text \<open>
  The merge flag of \<^verbatim>\<open>current_gitstatus\<close>: the answer of \<^verbatim>\<open>file_exists\<close> cast to an
  unsigned integer and printed.
\<close>

definition merge_flag :: "filesystem \<Rightarrow> string \<Rightarrow> string" where
  "merge_flag env merge_file = to_string (if file_exists env merge_file then 1 else 0)"

text \<open>
  \<^verbatim>\<open>current_gitstatus\<close> in the order of its statements; the first exception ends it.
  \<^verbatim>\<open>lines[0]\<close> on an empty vector is undefined. \<open>None\<close> is the run that never returns
  from the constructor of \<^verbatim>\<open>GPaths\<close>.
\<close>

definition current_gitstatus :: "filesystem \<Rightarrow> string list \<Rightarrow> (error + string) option" where
  "current_gitstatus env lines =
     (case find_git_root env of
        Inl e \<Rightarrow> Some (Inl e)
      | Inr root \<Rightarrow>
          (case GPaths_new env root of
             None \<Rightarrow> None
           | Some (Inl e) \<Rightarrow> Some (Inl e)
           | Some (Inr path) \<Rightarrow>
               if lines = [] then Some (Inl UndefinedBehaviour)
               else
                 (case parse_branch env (lines ! 0) (GPaths_head path) of
                    Inl e \<Rightarrow> Some (Inl e)
                  | Inr info \<Rightarrow>
                      (case parse_remote (lines ! 0) of
                         Inl e \<Rightarrow> Some (Inl e)
                       | Inr remote \<Rightarrow>
                           (case parse_stats lines of
                              Inl e \<Rightarrow> Some (Inl e)
                            | Inr stats \<Rightarrow>
                                Some (Inr (branch info @ '' '' @ show_GRemote remote
                                  @ show_GStats stats
                                  @ stash_count env (GPaths_stash path) @ '' ''
                                  @ to_string (local info) @ '' ''
                                  @ upstream info @ '' ''
                                  @ merge_flag env (GPaths_merge path) @ '' ''
                                  @ rebase_progress env (GPaths_rebase path))))))))"

section \<open>Facts about the string operations\<close>

lemma find_str_iff_sublist: "find_str pat s \<noteq> None \<longleftrightarrow> sublist pat s"
proof (induction s)
  case Nil
  then show ?case by simp
next
  case (Cons c s)
  then show ?case by (simp add: sublist_Cons_right)
qed

lemma find_str_None_iff: "find_str pat s = None \<longleftrightarrow> \<not> sublist pat s"
  using find_str_iff_sublist[of pat s] by blast

lemma find_str_bound: "find_str pat s = Some i \<Longrightarrow> i + length pat \<le> length s"
proof (induction s arbitrary: i)
  case Nil
  then show ?case by (simp split: if_splits)
next
  case (Cons c s)
  show ?case
  proof (cases "prefix pat (c # s)")
    case True
    with Cons.prems have "i = 0" by simp
    with True prefix_length_le[of pat "c # s"] show ?thesis by simp
  next
    case False
    with Cons.prems obtain j where "find_str pat s = Some j" "i = Suc j" by auto
    with Cons.IH show ?thesis by simp
  qed
qed

section \<open>Tokens, lines and fields as the spec words them\<close>

text \<open>
  Cutting a string at every character that satisfies \<open>P\<close>; the pieces between two
  cuts, before the first and after the last one are all kept, empty or not.
\<close>

fun split_when :: "(char \<Rightarrow> bool) \<Rightarrow> string \<Rightarrow> string list" where
  "split_when P [] = [[]]"
| "split_when P (c # s) =
     (if P c then [] # split_when P s
      else (case split_when P s of
              w # ws \<Rightarrow> (c # w) # ws
            | [] \<Rightarrow> [[c]]))"

text \<open>The white-space-delimited tokens of a string, and the first of them.\<close>

definition tokens :: "string \<Rightarrow> string list" where
  "tokens s = filter (\<lambda>w. w \<noteq> []) (split_when isspace s)"

definition first_token :: "string \<Rightarrow> string" where
  "first_token s = (case tokens s of [] \<Rightarrow> [] | w # ws \<Rightarrow> w)"

lemma split_when_not_Nil: "split_when P s \<noteq> []"
  by (induction s) (auto split: list.splits)

lemma hd_split_when: "hd (split_when P s) = takeWhile (\<lambda>c. \<not> P c) s"
  by (induction s) (auto split: list.splits simp: split_when_not_Nil)

lemma tokens_Cons:
  "tokens (c # s) = (if isspace c then tokens s
                     else (c # takeWhile (\<lambda>c. \<not> isspace c) s) # tl (tokens (c # s)))"
proof (cases "isspace c")
  case True
  then show ?thesis by (simp add: tokens_def)
next
  case False
  obtain w ws where sp: "split_when isspace s = w # ws"
    using split_when_not_Nil[of isspace s] by (cases "split_when isspace s") auto
  then have "w = takeWhile (\<lambda>c. \<not> isspace c) s"
    using hd_split_when[of isspace s] by simp
  with False sp show ?thesis by (simp add: tokens_def)
qed

lemma first_token_eq:
  "first_token s = takeWhile (\<lambda>c. \<not> isspace c) (dropWhile isspace s)"
proof (induction s)
  case Nil
  then show ?case by (simp add: first_token_def tokens_def)
next
  case (Cons c s)
  show ?case
  proof (cases "isspace c")
    case True
    with Cons show ?thesis
      by (simp add: first_token_def tokens_Cons[of c s])
  next
    case False
    then show ?thesis
      by (subst first_token_def, subst tokens_Cons) simp
  qed
qed

lemma extract_string_open:
  "snd (extract_string \<lparr>buf = content, eofbit = False, failbit = False\<rparr> []) =
     first_token content"
proof (cases "dropWhile isspace content = []")
  case True
  then show ?thesis
    by (simp add: extract_string_def good_def Let_def first_token_eq
        del: dropWhile_eq_Nil_conv)
next
  case False
  then show ?thesis
    by (simp add: extract_string_def good_def Let_def first_token_eq
        del: dropWhile_eq_Nil_conv)
qed

text \<open>
  A repository at \<^verbatim>\<open>/r\<close> seen from \<^verbatim>\<open>/r/w\<close>: the metadata directory \<^verbatim>\<open>/r/.git\<close> and
  in it the file \<^verbatim>\<open>HEAD\<close> with a commit hash and a newline.
\<close>

definition example_fs :: filesystem where
  "example_fs =
     \<lparr>getcwd = Some ''/r/w'',
      file_exists = (\<lambda>p. p = ''/r/.git''),
      file_is_dir = (\<lambda>p. p = ''/r/.git''),
      file_open = (\<lambda>p. if p = ''/r/.git/HEAD'' then Some (''a1b2c3d'' @ [CHR 0x0A])
                        else None)\<rparr>"

section \<open>Claims about the status lines\<close>

text \<open>
  A status line of the report grammar: not empty, and with its two status columns
  unless it starts with \<^verbatim>\<open>?\<close>.
\<close>

definition status_line :: "string \<Rightarrow> bool" where
  "status_line l = (l \<noteq> [] \<and> (hd l = CHR ''?'' \<or> 2 \<le> length l))"

definition untracked_line :: "string \<Rightarrow> bool" where
  "untracked_line l = (hd l = CHR ''?'')"

definition conflict_line :: "string \<Rightarrow> bool" where
  "conflict_line l =
     (hd l \<noteq> CHR ''?'' \<and>
      take 2 l \<in> set [''AA'', ''AU'', ''DD'', ''DU'', ''UA'', ''UD'', ''UU''])"

definition staged_line :: "string \<Rightarrow> bool" where
  "staged_line l =
     (hd l \<noteq> CHR ''?'' \<and> \<not> conflict_line l \<and> l ! 0 \<in> set ''ACDMR'')"

definition changed_line :: "string \<Rightarrow> bool" where
  "changed_line l =
     (hd l \<noteq> CHR ''?'' \<and> \<not> conflict_line l \<and> l ! 1 \<in> set ''CDMR'')"

lemma parse_stats_body_untracked:
  "parse_stats_body stats (CHR ''?'' # r) = Inr (stats\<lparr>untracked := untracked stats + 1\<rparr>)"
  by (simp add: parse_stats_body_def at_def)

lemma parse_stats_body_pair:
  assumes "a \<noteq> CHR ''?''"
  shows "parse_stats_body stats (a # b # r) =
    Inr (if conflict_line (a # b # r) then stats\<lparr>conflicts := conflicts stats + 1\<rparr>
         else (let s1 = (if staged_line (a # b # r)
                         then stats\<lparr>staged := staged stats + 1\<rparr> else stats)
               in if changed_line (a # b # r) then s1\<lparr>changed := changed s1 + 1\<rparr> else s1))"
  using assms
  by (simp add: parse_stats_body_def at_def hash_two_places_def HASH_CASE_defs
      conflict_line_def staged_line_def changed_line_def Let_def)

lemma parse_stats_body_short:
  "parse_stats_body stats [] = Inl OutOfRange"
  "a \<noteq> CHR ''?'' \<Longrightarrow> parse_stats_body stats [a] = Inl OutOfRange"
  by (simp_all add: parse_stats_body_def at_def hash_two_places_def)

lemma status_line_cases:
  assumes "status_line l"
  obtains r where "l = CHR ''?'' # r" | a b r where "l = a # b # r" "a \<noteq> CHR ''?''"
  using assms unfolding status_line_def
  by (cases l; cases "tl l") auto

lemma parse_stats_body_ok:
  assumes "status_line l"
  shows "parse_stats_body stats l =
    Inr \<lparr>staged = staged stats + (if staged_line l then 1 else 0),
         conflicts = conflicts stats + (if conflict_line l then 1 else 0),
         changed = changed stats + (if changed_line l then 1 else 0),
         untracked = untracked stats + (if untracked_line l then 1 else 0)\<rparr>"
proof (rule status_line_cases[OF assms], goal_cases)
  case (1 r)
  then show ?thesis
    by (simp add: parse_stats_body_untracked untracked_line_def staged_line_def
        conflict_line_def changed_line_def)
next
  case (2 a b r)
  have "\<not> untracked_line l" using 2 by (simp add: untracked_line_def)
  moreover have "conflict_line l \<Longrightarrow> \<not> staged_line l \<and> \<not> changed_line l"
    by (simp add: staged_line_def changed_line_def)
  ultimately show ?thesis
    using 2 by (auto simp add: parse_stats_body_pair Let_def)
qed

lemma parse_stats_loop_ok:
  assumes "\<forall>l \<in> set lines. status_line l"
  shows "parse_stats_loop stats lines =
    Inr \<lparr>staged = staged stats + length (filter staged_line lines),
         conflicts = conflicts stats + length (filter conflict_line lines),
         changed = changed stats + length (filter changed_line lines),
         untracked = untracked stats + length (filter untracked_line lines)\<rparr>"
  using assms
proof (induction lines arbitrary: stats)
  case Nil
  then show ?case by simp
next
  case (Cons l lines)
  then show ?case by (simp add: parse_stats_body_ok)
qed

lemma parse_stats_body_bad:
  assumes "\<not> status_line l"
  shows "parse_stats_body stats l = Inl OutOfRange"
proof -
  from assms have "l = [] \<or> (\<exists>a. l = [a] \<and> a \<noteq> CHR ''?'')"
    unfolding status_line_def by (cases l; cases "tl l") auto
  then show ?thesis by (auto simp: parse_stats_body_short)
qed

lemma parse_stats_loop_bad:
  assumes "\<exists>l \<in> set lines. \<not> status_line l"
  shows "parse_stats_loop stats lines = Inl OutOfRange"
  using assms
proof (induction lines arbitrary: stats)
  case Nil
  then show ?case by simp
next
  case (Cons l lines)
  show ?case
  proof (cases "status_line l")
    case True
    with Cons.prems have "\<exists>l \<in> set lines. \<not> status_line l" by auto
    then show ?thesis using True Cons.IH by (simp add: parse_stats_body_ok)
  next
    case False
    then show ?thesis by (simp add: parse_stats_body_bad)
  qed
qed

lemma status_classes_exclusive:
  "length (filter untracked_line lines) + length (filter conflict_line lines)
     + length (filter (\<lambda>l. staged_line l \<or> changed_line l) lines) \<le> length lines"
  by (induction lines)
    (auto simp: untracked_line_def conflict_line_def staged_line_def changed_line_def)

text \<open>
  Claim C2. On a list of status lines (each line non-empty, and two characters long
  at least unless it starts with \<^verbatim>\<open>?\<close>), \<^verbatim>\<open>parse_stats\<close> returns, and each counter
  is the number of lines of its class: a line starting with \<^verbatim>\<open>?\<close> counts for
  \<open>untracked\<close> only; otherwise a line whose first two characters are one of AA, AU,
  DD, DU, UA, UD, UU counts for \<open>conflicts\<close> only; otherwise it counts for \<open>staged\<close>
  iff its first character is one of A, C, D, M, R and, independently, for \<open>changed\<close>
  iff its second character is one of C, D, M, R. Every line is counted once in each
  counter whose condition it meets, so each line is visited exactly once; and no
  line is in two of the three groups untracked, conflicts, staged or changed, while
  one line may be both staged and changed.
\<close>

theorem parse_stats_classifies:
  assumes "\<forall>l \<in> set lines. status_line l"
  shows "parse_stats lines =
    Inr \<lparr>staged = length (filter staged_line lines),
         conflicts = length (filter conflict_line lines),
         changed = length (filter changed_line lines),
         untracked = length (filter untracked_line lines)\<rparr> \<and>
    length (filter untracked_line lines) + length (filter conflict_line lines)
      + length (filter (\<lambda>l. staged_line l \<or> changed_line l) lines) \<le> length lines"
  using parse_stats_loop_ok[OF assms, of GStats_init] status_classes_exclusive[of lines]
  by (simp add: parse_stats_def GStats_init_def)

theorem parse_stats_classifies_witness:
  "parse_stats [''## main'', ''?? a'', ''MM b'', ''UU c'', ''A  d'', '' D e'', ''AU f''] =
     Inr \<lparr>staged = 2, conflicts = 2, changed = 2, untracked = 1\<rparr>"
  using parse_stats_classifies
    [of "[''## main'', ''?? a'', ''MM b'', ''UU c'', ''A  d'', '' D e'', ''AU f'']"]
  by (simp add: status_line_def staged_line_def conflict_line_def changed_line_def
      untracked_line_def)

text \<open>
  Claim C10. \<^verbatim>\<open>parse_stats\<close> reads the first character of every line with
  \<^verbatim>\<open>at(0)\<close> and, for a line that does not start with \<^verbatim>\<open>?\<close>, the second one with
  \<^verbatim>\<open>at(1)\<close>. So when every line is non-empty and every line not starting with \<^verbatim>\<open>?\<close>
  has two characters at least, no access is out of range and the classifier returns
  its counters; and when some line is empty, or is a single character other than
  \<^verbatim>\<open>?\<close>, it raises \<^verbatim>\<open>std::out_of_range\<close>.
\<close>

theorem parse_stats_total_iff_in_range:
  "((\<forall>l \<in> set lines. l \<noteq> [] \<and> (hd l \<noteq> CHR ''?'' \<longrightarrow> 2 \<le> length l))
      \<longrightarrow> (\<exists>stats. parse_stats lines = Inr stats)) \<and>
   ((\<exists>l \<in> set lines. l = [] \<or> (hd l \<noteq> CHR ''?'' \<and> length l < 2))
      \<longrightarrow> parse_stats lines = Inl OutOfRange)"
proof (intro conjI impI)
  assume "\<forall>l \<in> set lines. l \<noteq> [] \<and> (hd l \<noteq> CHR ''?'' \<longrightarrow> 2 \<le> length l)"
  then have "\<forall>l \<in> set lines. status_line l"
    by (auto simp: status_line_def)
  from parse_stats_loop_ok[OF this, of GStats_init]
  show "\<exists>stats. parse_stats lines = Inr stats"
    by (simp add: parse_stats_def)
next
  assume "\<exists>l \<in> set lines. l = [] \<or> (hd l \<noteq> CHR ''?'' \<and> length l < 2)"
  then have "\<exists>l \<in> set lines. \<not> status_line l"
    by (auto simp: status_line_def)
  from parse_stats_loop_bad[OF this, of GStats_init]
  show "parse_stats lines = Inl OutOfRange"
    by (simp add: parse_stats_def)
qed

theorem parse_stats_total_iff_in_range_witness:
  "(\<exists>stats. parse_stats [''?'', ''?? a'', ''M  b''] = Inr stats) \<and>
   parse_stats [''?? a'', ''''] = Inl OutOfRange \<and>
   parse_stats [''?? a'', ''M''] = Inl OutOfRange"
  using parse_stats_total_iff_in_range[of "[''?'', ''?? a'', ''M  b'']"]
    parse_stats_total_iff_in_range[of "[''?? a'', '''']"]
    parse_stats_total_iff_in_range[of "[''?? a'', ''M'']"]
  by simp

section \<open>Claims about the header line\<close>

lemmas parse_branch_simps =
  parse_branch_def substr_def GBranch_init_def ifstream_open_def good_def
  extract_string_def isspace_def

lemmas parse_remote_simps =
  parse_remote_def at_def substr_count_def GRemote_init_def parse_remote_ahead_def
  parse_remote_behind_def stoi_def isdigit_def digits_value_def digit_value_def

text \<open>
  Claim C3. The header line \<^verbatim>\<open>## main...origin/main [ahead 2, behind 3]\<close> parses to
  the branch \<^verbatim>\<open>main\<close>, the upstream \<^verbatim>\<open>origin/main\<close> and \<open>local = 0\<close> (not local only)
  with \<^verbatim>\<open>parse_branch\<close>, whatever the file system, and to ahead 2 and behind 3 with
  \<^verbatim>\<open>parse_remote\<close>.
\<close>

theorem header_ahead_behind_example:
  "parse_branch env ''## main...origin/main [ahead 2, behind 3]'' head_file =
     Inr \<lparr>branch = ''main'', upstream = ''origin/main'', local = 0\<rparr> \<and>
   parse_remote ''## main...origin/main [ahead 2, behind 3]'' =
     Inr \<lparr>ahead = 2, behind = 3\<rparr>"
  by (simp add: parse_branch_simps parse_remote_simps)

theorem header_ahead_behind_example_witness:
  "parse_branch
     \<lparr>getcwd = None, file_exists = (\<lambda>p. False), file_is_dir = (\<lambda>p. False),
      file_open = (\<lambda>p. None)\<rparr>
     ''## main...origin/main [ahead 2, behind 3]'' ''/r/.git/HEAD'' =
     Inr \<lparr>branch = ''main'', upstream = ''origin/main'', local = 0\<rparr> \<and>
   parse_remote ''## main...origin/main [ahead 2, behind 3]'' =
     Inr \<lparr>ahead = 2, behind = 3\<rparr>"
  by (rule header_ahead_behind_example)

text \<open>
  The header content as \<^verbatim>\<open>parse_branch\<close> computes it: the line without its first
  three characters (the marker \<^verbatim>\<open>##\<close> and the space after it) and without what
  starts at the last \<^verbatim>\<open> [\<close>.
\<close>

definition header_content :: "string \<Rightarrow> string" where
  "header_content line =
     (case rfind_str '' ['' (drop 3 line) of
        Some found \<Rightarrow> take found (drop 3 line)
      | None \<Rightarrow> drop 3 line)"

text \<open>The content that the claim describes: the line without a prefix of two characters.\<close>

definition header_content_two :: "string \<Rightarrow> string" where
  "header_content_two line =
     (case rfind_str '' ['' (drop 2 line) of
        Some found \<Rightarrow> take found (drop 2 line)
      | None \<Rightarrow> drop 2 line)"

text \<open>
  Claim C1 (as the code has it). When the header content contains \<^verbatim>\<open>(no branch)\<close>
  and no \<^verbatim>\<open>...\<close>, \<^verbatim>\<open>parse_branch\<close> sets \<open>local\<close> to 0, the value it also gives to a
  branch with an upstream (so the line is not reported as local only), leaves
  \<open>upstream\<close> as its constructor made it (empty) and sets \<open>branch\<close> to the first
  white-space-delimited token of the head file, empty when the file holds none;
  when the head file does not open it throws the runtime error
  \<^verbatim>\<open>Failed to get hash!\<close>, the \<open>IOError\<close> of the spec.
\<close>

theorem parse_branch_detached:
  assumes "sublist ''(no branch)'' (header_content line)"
    and "\<not> sublist ''...'' (header_content line)"
  shows "parse_branch env line head_file =
    (case file_open env head_file of
       None \<Rightarrow> Inl (RuntimeError ''Failed to get hash!'')
     | Some content \<Rightarrow> Inr \<lparr>branch = first_token content, upstream = [], local = 0\<rparr>)"
proof -
  from assms(1) have "length ''(no branch)'' \<le> length (header_content line)"
    by (rule sublist_length_le)
  moreover have "length (header_content line) \<le> length (drop 3 line)"
    by (simp add: header_content_def split: option.splits)
  ultimately have len: "\<not> length line < 3" by simp
  have f1: "find_str ''...'' (header_content line) = None"
    using assms(2) by (simp add: find_str_None_iff)
  have f2: "find_str ''(no branch)'' (header_content line) \<noteq> None"
    using assms(1) find_str_iff_sublist[of "''(no branch)''" "header_content line"] by blast
  have "parse_branch env line head_file =
    (let fin = ifstream_open env head_file in
     if good fin
     then Inr (GBranch_init\<lparr>local := 0, branch := snd (extract_string fin [])\<rparr>)
     else Inl (RuntimeError ''Failed to get hash!''))"
    using len f1 f2
    by (simp add: parse_branch_def substr_def Let_def header_content_def[symmetric]
        GBranch_init_def)
  also have "\<dots> = (case file_open env head_file of
       None \<Rightarrow> Inl (RuntimeError ''Failed to get hash!'')
     | Some content \<Rightarrow> Inr \<lparr>branch = first_token content, upstream = [], local = 0\<rparr>)"
    by (simp add: ifstream_open_def good_def GBranch_init_def extract_string_open
        split: option.splits)
  finally show ?thesis .
qed

text \<open>
  The claim as stated fails on \<^verbatim>\<open>## HEAD (no branch)\<close>: the content contains the marker
  and no separator, the hash is read, and \<open>local\<close> is 0 and not 1.
\<close>

theorem parse_branch_detached_counterexample:
  "sublist ''(no branch)'' (header_content_two ''## HEAD (no branch)'') \<and>
   \<not> sublist ''...'' (header_content_two ''## HEAD (no branch)'') \<and>
   parse_branch example_fs ''## HEAD (no branch)'' ''/r/.git/HEAD'' =
     Inr \<lparr>branch = ''a1b2c3d'', upstream = [], local = 0\<rparr> \<and>
   parse_branch example_fs ''## HEAD (no branch)'' ''/r/.git/HEAD'' \<noteq>
     Inr \<lparr>branch = ''a1b2c3d'', upstream = [], local = 1\<rparr>"
  by (simp add: header_content_two_def find_str_iff_sublist[symmetric] parse_branch_simps
      example_fs_def)

theorem parse_branch_detached_witness:
  "parse_branch example_fs ''## HEAD (no branch)'' ''/r/.git/HEAD'' =
     Inr \<lparr>branch = ''a1b2c3d'', upstream = [], local = 0\<rparr> \<and>
   parse_branch example_fs ''## HEAD (no branch) [x]'' ''/r/.git/NONE'' =
     Inl (RuntimeError ''Failed to get hash!'')"
  using parse_branch_detached[of "''## HEAD (no branch)''" example_fs "''/r/.git/HEAD''"]
    parse_branch_detached[of "''## HEAD (no branch) [x]''" example_fs "''/r/.git/NONE''"]
  by (simp add: header_content_def find_str_iff_sublist[symmetric] example_fs_def
      first_token_eq isspace_def)

lemma stoi_no_digit:
  assumes "\<forall>c \<in> set part. \<not> isdigit c"
  shows "stoi part = Inl InvalidArgument"
proof -
  let ?s1 = "dropWhile isspace part"
  let ?s2 = "if ?s1 \<noteq> [] \<and> (hd ?s1 = CHR ''-'' \<or> hd ?s1 = CHR ''+'') then tl ?s1 else ?s1"
  have "set ?s1 \<subseteq> set part" by (auto dest: set_dropWhileD)
  moreover have "set (tl xs) \<subseteq> set xs" for xs :: string by (cases xs) auto
  then have "set ?s2 \<subseteq> set ?s1" by (simp del: dropWhile_eq_Nil_conv)
  ultimately have "\<forall>c \<in> set ?s2. \<not> isdigit c" using assms by blast
  then have "takeWhile isdigit ?s2 = []" by (cases ?s2) auto
  then show ?thesis by (simp add: stoi_def Let_def)
qed

lemma bracket_content_length:
  assumes "sublist ''ahead'' temp" and "last temp = CHR '']''"
  shows "6 \<le> length temp"
proof -
  from assms(1) obtain ps ss where t: "temp = ps @ ''ahead'' @ ss"
    by (auto simp: sublist_def)
  have "ss \<noteq> []"
  proof
    assume "ss = []"
    with t have "last temp = CHR ''d''" by simp
    with assms(2) show False by simp
  qed
  then have "1 \<le> length ss" by (cases ss) auto
  with t show ?thesis by simp
qed

text \<open>
  Claim C6. When the header line passes the bracket check of \<^verbatim>\<open>parse_remote\<close> (it
  contains \<^verbatim>\<open> [\<close> and its last character is \<^verbatim>\<open>]\<close>), what follows the first \<^verbatim>\<open> [\<close>
  contains the keyword \<^verbatim>\<open>ahead\<close>, and the characters that the scan accumulates in
  \<open>part\<close> hold no digit (for the bracket content \<^verbatim>\<open>ahead\<close> there is none at all), then
  \<^verbatim>\<open>parse_remote\<close> fails with the \<^verbatim>\<open>std::invalid_argument\<close> of \<^verbatim>\<open>std::stoi\<close>: a parse
  error, not a default of 0.
\<close>

theorem parse_remote_ahead_without_digits:
  assumes "find_str '' ['' line = Some found"
    and "last line = CHR '']''"
    and "sublist ''ahead'' (drop (found + 2) line)"
    and "\<forall>c \<in> set (fst (scan_part [] (drop 6 (drop (found + 2) line)))). \<not> isdigit c"
  shows "parse_remote line = Inl InvalidArgument"
proof -
  let ?temp = "drop (found + 2) line"
  from find_str_bound[OF assms(1)] have bound: "found + 2 \<le> length line" by simp
  then have ne: "line \<noteq> []" by auto
  then have at_last: "at line (length line - 1) = Inr (CHR '']'')"
    using assms(2) by (simp add: at_def last_conv_nth)
  have sub: "substr_count line (found + 2) (length line - 1) = Inr ?temp"
    using bound by (simp add: substr_count_def)
  from assms(3) have "length ''ahead'' \<le> length ?temp" by (rule sublist_length_le)
  then have tne: "?temp \<noteq> []" by auto
  then have "last ?temp = CHR '']''" using assms(2) by (simp add: last_drop)
  with assms(3) have six: "\<not> length ?temp < 6"
    using bracket_content_length[of ?temp] by simp
  have key: "find_str ''ahead'' ?temp \<noteq> None"
    using assms(3) find_str_iff_sublist[of "''ahead''" ?temp] by blast
  obtain part temp' where sc: "scan_part [] (drop 6 ?temp) = (part, temp')"
    by (cases "scan_part [] (drop 6 ?temp)")
  with assms(4) have "stoi part = Inl InvalidArgument"
    by (intro stoi_no_digit) simp
  with sc six key tne have "parse_remote_ahead GRemote_init ?temp = Inl InvalidArgument"
    by (simp add: parse_remote_ahead_def)
  with assms(1) at_last sub show ?thesis
    by (simp add: parse_remote_def)
qed

theorem parse_remote_ahead_without_digits_witness:
  "parse_remote ''## main...origin/main [ahead]'' = Inl InvalidArgument \<and>
   parse_remote ''## main...origin/main [ahead x, behind 1]'' = Inl InvalidArgument"
  using parse_remote_ahead_without_digits[of "''## main...origin/main [ahead]''" 21]
    parse_remote_ahead_without_digits[of "''## main...origin/main [ahead x, behind 1]''" 21]
  by (simp add: isdigit_def find_str_iff_sublist[symmetric])

text \<open>
  The two iterator ranges of \<^verbatim>\<open>parse_remote\<close> are always valid: what is left of the
  line after the bracket check ends with \<^verbatim>\<open>]\<close>, so it is longer than a keyword that
  it contains.
\<close>

lemma keyword_shorter:
  assumes "sublist kw temp" and "last temp = CHR '']''" and "kw \<noteq> []"
    and "last kw \<noteq> CHR '']''"
  shows "length kw < length temp"
proof -
  from assms(1) obtain ps ss where t: "temp = ps @ kw @ ss"
    by (auto simp: sublist_def)
  have "ss \<noteq> []"
  proof
    assume "ss = []"
    with t assms(3) have "last temp = last kw" by simp
    with assms(2,4) show False by simp
  qed
  then have "0 < length ss" by simp
  then show ?thesis unfolding t by simp
qed

lemma stoi_defined: "stoi str \<noteq> Inl UndefinedBehaviour"
  by (simp add: stoi_def Let_def)

lemma scan_part_suffix: "suffix (snd (scan_part part temp)) temp"
proof (induction temp arbitrary: part)
  case Nil
  then show ?case by simp
next
  case (Cons c temp)
  show ?case
  proof (cases "temp = [] \<or> \<not> isdigit (hd temp)")
    case True
    then show ?thesis by (auto simp: suffix_Cons)
  next
    case False
    with Cons.IH[of "part @ [c]"] show ?thesis by (auto simp: suffix_Cons)
  qed
qed

lemma suffix_last:
  assumes "suffix t s" and "t \<noteq> []"
  shows "last t = last s"
  using assms by (auto simp: suffix_def)

lemma parse_remote_defined: "parse_remote line \<noteq> Inl UndefinedBehaviour"
proof (cases "find_str '' ['' line")
  case None
  then show ?thesis by (simp add: parse_remote_def)
next
  case (Some found)
  let ?temp = "drop (found + 2) line"
  from find_str_bound[OF Some] have bound: "found + 2 \<le> length line" by simp
  then have ne: "line \<noteq> []" by auto
  then have at_last: "at line (length line - 1) = Inr (last line)"
    by (simp add: at_def last_conv_nth)
  have sub: "substr_count line (found + 2) (length line - 1) = Inr ?temp"
    using bound by (simp add: substr_count_def)
  show ?thesis
  proof (cases "last line = CHR '']''")
    case False
    with Some at_last show ?thesis by (simp add: parse_remote_def)
  next
    case True
    have ends: "last t = CHR '']''" if "suffix t ?temp" "t \<noteq> []" for t
    proof -
      from that have "suffix t line" "t \<noteq> []"
        using suffix_drop suffix_order.trans by blast+
      with True show ?thesis by (simp add: suffix_last)
    qed
    have behind: "parse_remote_behind remote t \<noteq> Inl UndefinedBehaviour"
      if "suffix t ?temp" for t remote
    proof (cases "t \<noteq> [] \<and> find_str ''behind'' t \<noteq> None")
      case False
      then show ?thesis by (auto simp: parse_remote_behind_def)
    next
      case True
      then have "sublist ''behind'' t" using find_str_iff_sublist by blast
      with ends[OF that] True have "length ''behind'' < length t"
        by (intro keyword_shorter) auto
      then show ?thesis
        using stoi_defined[of "drop 7 t"]
        by (auto simp: parse_remote_behind_def split: sum.splits)
    qed
    have comma: "suffix (if length t \<noteq> 0 \<and> hd t = CHR '','' then drop 1 t else t) ?temp"
      if "suffix t ?temp" for t
    proof -
      have "suffix (drop 1 t) ?temp"
        using that suffix_drop[of 1 t] suffix_order.trans by blast
      with that show ?thesis by simp
    qed
    have "parse_remote_behind remote
        (if length t \<noteq> 0 \<and> hd t = CHR '','' then drop 1 t else t) \<noteq> Inl UndefinedBehaviour"
      if "suffix t ?temp" for t remote
      using behind[OF comma[OF that]] .
    note rest = this
    have eq: "parse_remote line =
        (case parse_remote_ahead GRemote_init ?temp of
           Inl e \<Rightarrow> Inl e
         | Inr (remote, temp1) \<Rightarrow>
             parse_remote_behind remote
               (if length temp1 \<noteq> 0 \<and> hd temp1 = CHR '','' then drop 1 temp1 else temp1))"
      using Some at_last sub True by (simp add: parse_remote_def)
    show ?thesis
    proof (cases "parse_remote_ahead GRemote_init ?temp")
      case (Inl e)
      then have "e \<noteq> UndefinedBehaviour"
      proof (cases "?temp \<noteq> [] \<and> find_str ''ahead'' ?temp \<noteq> None")
        case False
        with Inl show ?thesis by (auto simp: parse_remote_ahead_def)
      next
        case ahead: True
        then have "sublist ''ahead'' ?temp" using find_str_iff_sublist by blast
        with ends[of ?temp] ahead have six: "\<not> length ?temp < 6"
          using keyword_shorter[of "''ahead''" ?temp] by auto
        obtain part temp' where sc: "scan_part [] (drop 6 ?temp) = (part, temp')"
          by (cases "scan_part [] (drop 6 ?temp)")
        with Inl ahead six have "stoi part = Inl e"
          by (auto simp: parse_remote_ahead_def split: sum.splits)
        with stoi_defined[of part] show ?thesis by auto
      qed
      with Inl show ?thesis unfolding eq by simp
    next
      case (Inr r)
      obtain remote temp1 where r: "r = (remote, temp1)" by (cases r)
      have "suffix temp1 ?temp"
      proof (cases "?temp \<noteq> [] \<and> find_str ''ahead'' ?temp \<noteq> None")
        case False
        with Inr r show ?thesis by (auto simp: parse_remote_ahead_def)
      next
        case ahead: True
        then have "sublist ''ahead'' ?temp" using find_str_iff_sublist by blast
        with ends[of ?temp] ahead have six: "\<not> length ?temp < 6"
          using keyword_shorter[of "''ahead''" ?temp] by auto
        obtain part temp' where sc: "scan_part [] (drop 6 ?temp) = (part, temp')"
          by (cases "scan_part [] (drop 6 ?temp)")
        with Inr r ahead six have "temp1 = temp'"
          by (auto simp: parse_remote_ahead_def split: sum.splits)
        moreover from scan_part_suffix[of "[]" "drop 6 ?temp"] sc
        have "suffix temp' (drop 6 ?temp)" by simp
        ultimately show ?thesis
          using suffix_drop suffix_order.trans by blast
      qed
      from rest[OF this, of remote] show ?thesis
        unfolding eq Inr r sum.case prod.case .
    qed
  qed
qed

section \<open>Claims about the auxiliary state\<close>

lemma split_when_no_cut:
  "\<forall>c \<in> set s. \<not> P c \<Longrightarrow> split_when P s = [s]"
  by (induction s) auto

lemma split_when_cut:
  "\<forall>c \<in> set line. \<not> P c \<Longrightarrow> P d \<Longrightarrow>
     split_when P (line @ d # rest) = line # split_when P rest"
  by (induction line) auto

text \<open>The lines of a file, and how many of them are not empty.\<close>

definition file_lines :: "string \<Rightarrow> string list" where
  "file_lines content = split_when (\<lambda>c. c = CHR 0x0A) content"

definition nonempty_lines :: "string \<Rightarrow> nat" where
  "nonempty_lines content = length (filter (\<lambda>l. l \<noteq> []) (file_lines content))"

text \<open>
  The count that the claim describes: the lines that are not empty after white space
  is trimmed from both ends.
\<close>

definition trim :: "string \<Rightarrow> string" where
  "trim l = rev (dropWhile isspace (rev (dropWhile isspace l)))"

definition nonblank_lines :: "string \<Rightarrow> nat" where
  "nonblank_lines content = length (filter (\<lambda>l. trim l \<noteq> []) (file_lines content))"

lemma file_lines_last: "CHR 0x0A \<notin> set s \<Longrightarrow> file_lines s = [s]"
  unfolding file_lines_def by (rule split_when_no_cut) auto

lemma file_lines_next:
  "CHR 0x0A \<notin> set line \<Longrightarrow> file_lines (line @ CHR 0x0A # rest) = line # file_lines rest"
  unfolding file_lines_def by (rule split_when_cut) auto

lemma stash_count_loop_counts:
  "stash_count_loop fin count =
     (if good fin then count + of_nat (nonempty_lines (buf fin)) else count)"
proof (induction fin count rule: stash_count_loop.induct)
  case (1 fin count)
  let ?line = "takeWhile (\<lambda>c. c \<noteq> CHR 0x0A) (buf fin)"
  let ?rest = "dropWhile (\<lambda>c. c \<noteq> CHR 0x0A) (buf fin)"
  let ?count = "if ?line \<noteq> [] then count + 1 else count"
  have line: "CHR 0x0A \<notin> set ?line" by (auto dest: set_takeWhileD)
  show ?case
  proof (cases "good fin")
    case False
    then show ?thesis by (simp add: stash_count_loop.simps)
  next
    case True
    show ?thesis
    proof (cases "?rest = []")
      case True
      then have whole: "buf fin = ?line"
        by (metis append_Nil2 takeWhile_dropWhile_id)
      have g: "getline fin [] =
          (fin\<lparr>buf := [], eofbit := True, failbit := (?line = [])\<rparr>, ?line)"
        using \<open>good fin\<close> True by (simp add: getline_def Let_def del: dropWhile_eq_Nil_conv)
      have "stash_count_loop fin count =
          stash_count_loop (fin\<lparr>buf := [], eofbit := True, failbit := (?line = [])\<rparr>) ?count"
        using \<open>good fin\<close> g by (subst stash_count_loop.simps) simp
      also have "\<dots> = ?count"
        by (subst stash_count_loop.simps) (simp add: good_def)
      also have "\<dots> = count + of_nat (nonempty_lines (buf fin))"
      proof -
        have "nonempty_lines (buf fin) = (if ?line \<noteq> [] then 1 else 0)"
          by (subst whole) (simp add: nonempty_lines_def file_lines_last[OF line])
        then show ?thesis by simp
      qed
      finally show ?thesis using \<open>good fin\<close> by simp
    next
      case False
      then obtain rest where rest: "?rest = CHR 0x0A # rest"
        using hd_dropWhile[of "\<lambda>c. c \<noteq> CHR 0x0A" "buf fin"] by (cases ?rest) auto
      then have whole: "buf fin = ?line @ CHR 0x0A # rest"
        by (metis takeWhile_dropWhile_id)
      have g: "getline fin [] = (fin\<lparr>buf := rest\<rparr>, ?line)"
        using \<open>good fin\<close> rest by (simp add: getline_def Let_def del: dropWhile_eq_Nil_conv)
      have g': "good (fin\<lparr>buf := rest\<rparr>)" using \<open>good fin\<close> by (simp add: good_def)
      have "stash_count_loop fin count = stash_count_loop (fin\<lparr>buf := rest\<rparr>) ?count"
        using \<open>good fin\<close> g by (subst stash_count_loop.simps) simp
      also have "\<dots> = ?count + of_nat (nonempty_lines rest)"
        using "1.IH"[OF \<open>good fin\<close> g[symmetric]] g' by simp
      also have "\<dots> = count + of_nat (nonempty_lines (buf fin))"
      proof -
        have "nonempty_lines (buf fin) = (if ?line \<noteq> [] then 1 else 0) + nonempty_lines rest"
          by (subst whole) (simp add: nonempty_lines_def file_lines_next[OF line])
        then show ?thesis by simp
      qed
      finally show ?thesis using \<open>good fin\<close> by simp
    qed
  qed
qed

lemma stash_count_missing:
  "file_open env stash_file = None \<Longrightarrow> stash_count env stash_file = ''0''"
  by (simp add: stash_count_def ifstream_open_def stash_count_loop_counts good_def
      to_string.simps)

lemma stash_count_present:
  assumes "file_open env stash_file = Some content"
  shows "stash_count env stash_file = to_string (nonempty_lines content mod 2 ^ 64)"
  using assms
  by (simp add: stash_count_def ifstream_open_def stash_count_loop_counts good_def unat_of_nat)

text \<open>
  The repository of \<open>example_fs\<close> in the middle of a merge and of a rebase: a stash log
  with three entries and a blank line at its end, the merge marker, and the two
  progress files. A second stash log, elsewhere, has a line of two spaces.
\<close>

definition busy_fs :: filesystem where
  "busy_fs =
     \<lparr>getcwd = Some ''/r/w'',
      file_exists = (\<lambda>p. p = ''/r/.git'' \<or> p = ''/r/.git/MERGE_HEAD''),
      file_is_dir = (\<lambda>p. p = ''/r/.git''),
      file_open = (\<lambda>p.
        if p = ''/r/.git/HEAD'' then Some (''a1b2c3d'' @ [CHR 0x0A])
        else if p = ''/r/.git/logs/refs/stash''
          then Some (''one'' @ [CHR 0x0A] @ ''two'' @ [CHR 0x0A] @ ''three''
                       @ [CHR 0x0A, CHR 0x0A])
        else if p = ''/blank/.git/logs/refs/stash''
          then Some (''one'' @ [CHR 0x0A] @ ''  '' @ [CHR 0x0A])
        else if p = ''/r/.git/rebase-apply/next'' then Some (''2'' @ [CHR 0x0A])
        else if p = ''/r/.git/rebase-apply/last'' then Some (''5'' @ [CHR 0x0A])
        else None)\<rparr>"

text \<open>
  Claim C7 (as the code has it). \<^verbatim>\<open>stash_count\<close> prints the number of lines of the
  stash log that are not empty; it does not trim, so a line of white space counts
  and only an empty line, such as a blank line at the end, does not. A log that
  does not open gives \<^verbatim>\<open>0\<close>. The counter has 64 bits, more than the lines of any file.
\<close>

theorem stash_count_counts_nonempty_lines:
  "(file_open env stash_file = None \<longrightarrow> stash_count env stash_file = ''0'') \<and>
   (\<forall>content. file_open env stash_file = Some content \<and> nonempty_lines content < 2 ^ 64
      \<longrightarrow> stash_count env stash_file = to_string (nonempty_lines content))"
  by (simp add: stash_count_missing stash_count_present)

theorem stash_count_counts_nonempty_lines_witness:
  "stash_count busy_fs ''/r/.git/logs/refs/stash'' = ''3'' \<and>
   stash_count busy_fs ''/blank/.git/logs/refs/stash'' = ''2'' \<and>
   stash_count busy_fs ''/nowhere/.git/logs/refs/stash'' = ''0''"
  using stash_count_counts_nonempty_lines[of busy_fs "''/r/.git/logs/refs/stash''"]
    stash_count_counts_nonempty_lines[of busy_fs "''/blank/.git/logs/refs/stash''"]
    stash_count_counts_nonempty_lines[of busy_fs "''/nowhere/.git/logs/refs/stash''"]
  by (simp add: busy_fs_def nonempty_lines_def file_lines_def to_string.simps)

text \<open>
  The claim as stated fails on a log whose second line is two spaces: one line is
  left after trimming, and the program prints 2.
\<close>

theorem stash_count_trim_counterexample:
  "file_open busy_fs ''/blank/.git/logs/refs/stash'' =
     Some (''one'' @ [CHR 0x0A] @ ''  '' @ [CHR 0x0A]) \<and>
   nonblank_lines (''one'' @ [CHR 0x0A] @ ''  '' @ [CHR 0x0A]) = 1 \<and>
   stash_count busy_fs ''/blank/.git/logs/refs/stash'' = ''2'' \<and>
   stash_count busy_fs ''/blank/.git/logs/refs/stash'' \<noteq> to_string 1"
proof -
  have opened: "file_open busy_fs ''/blank/.git/logs/refs/stash'' =
      Some (''one'' @ [CHR 0x0A] @ ''  '' @ [CHR 0x0A])"
    by (simp add: busy_fs_def)
  from stash_count_present[OF opened]
  have "stash_count busy_fs ''/blank/.git/logs/refs/stash'' = ''2''"
    by (simp add: nonempty_lines_def file_lines_def to_string.simps)
  moreover have "nonblank_lines (''one'' @ [CHR 0x0A] @ ''  '' @ [CHR 0x0A]) = 1"
    by (simp add: nonblank_lines_def trim_def isspace_def file_lines_def)
  ultimately show ?thesis
    using opened by (simp add: to_string.simps)
qed

text \<open>
  Claim C8. When the files \<^verbatim>\<open>next\<close> and \<^verbatim>\<open>last\<close> of the rebase directory both open,
  \<^verbatim>\<open>rebase_progress\<close> is the first token of \<^verbatim>\<open>next\<close>, a slash and the first token of
  \<^verbatim>\<open>last\<close>; in every other case it is \<^verbatim>\<open>0\<close>.
\<close>

theorem rebase_progress_tokens:
  "rebase_progress env rebase_d =
     (case file_open env (join rebase_d ''next'') of
        None \<Rightarrow> ''0''
      | Some next_content \<Rightarrow>
          (case file_open env (join rebase_d ''last'') of
             None \<Rightarrow> ''0''
           | Some last_content \<Rightarrow> first_token next_content @ ''/'' @ first_token last_content))"
  by (simp add: rebase_progress_def ifstream_open_def good_def extract_string_open
      split: option.splits)

theorem rebase_progress_tokens_witness:
  "rebase_progress busy_fs ''/r/.git/rebase-apply'' = ''2/5'' \<and>
   rebase_progress example_fs ''/r/.git/rebase-apply'' = ''0''"
  using rebase_progress_tokens[of busy_fs "''/r/.git/rebase-apply''"]
    rebase_progress_tokens[of example_fs "''/r/.git/rebase-apply''"]
  by (simp add: busy_fs_def example_fs_def join_def first_token_eq isspace_def)

lemma parse_remote_no_bracket:
  assumes "find_str '' ['' line = None \<or> last line \<noteq> CHR '']''"
  shows "parse_remote line = Inr \<lparr>ahead = 0, behind = 0\<rparr>"
proof (cases "find_str '' ['' line")
  case None
  then show ?thesis by (simp add: parse_remote_def GRemote_init_def)
next
  case (Some found)
  with assms have l: "last line \<noteq> CHR '']''" by simp
  from find_str_bound[OF Some] have "line \<noteq> []" by auto
  with l have "at line (length line - 1) = Inr (last line)"
    by (simp add: at_def last_conv_nth)
  with Some l show ?thesis by (simp add: parse_remote_def GRemote_init_def)
qed

text \<open>
  Claim C5. The optional state may be absent, and then nothing is thrown and the
  default stands: a stash log that does not open gives the stash count \<^verbatim>\<open>0\<close>; a merge
  marker that does not exist gives the merge flag \<^verbatim>\<open>0\<close> (false); a file \<^verbatim>\<open>next\<close> or
  \<^verbatim>\<open>last\<close> that does not open, as when the rebase directory is missing, gives the
  rebase progress \<^verbatim>\<open>0\<close>; and a header line with no tracking bracket at its end (no
  \<^verbatim>\<open> [\<close>, or a last character other than \<^verbatim>\<open>]\<close>) gives ahead 0 and behind 0.
\<close>

theorem absent_state_defaults:
  "(file_open env stash_file = None \<longrightarrow> stash_count env stash_file = ''0'') \<and>
   (\<not> file_exists env merge_file \<longrightarrow> merge_flag env merge_file = ''0'') \<and>
   (file_open env (join rebase_d ''next'') = None \<or> file_open env (join rebase_d ''last'') = None
      \<longrightarrow> rebase_progress env rebase_d = ''0'') \<and>
   (find_str '' ['' line = None \<or> last line \<noteq> CHR '']''
      \<longrightarrow> parse_remote line = Inr \<lparr>ahead = 0, behind = 0\<rparr>)"
proof (intro conjI impI)
  assume "file_open env stash_file = None"
  then show "stash_count env stash_file = ''0''" by (rule stash_count_missing)
next
  assume "\<not> file_exists env merge_file"
  then show "merge_flag env merge_file = ''0''"
    by (simp add: merge_flag_def to_string.simps)
next
  assume "file_open env (join rebase_d ''next'') = None
    \<or> file_open env (join rebase_d ''last'') = None"
  then show "rebase_progress env rebase_d = ''0''"
    by (auto simp: rebase_progress_def ifstream_open_def good_def)
next
  assume "find_str '' ['' line = None \<or> last line \<noteq> CHR '']''"
  then show "parse_remote line = Inr \<lparr>ahead = 0, behind = 0\<rparr>"
    by (rule parse_remote_no_bracket)
qed

theorem absent_state_defaults_witness:
  "stash_count example_fs ''/r/.git/logs/refs/stash'' = ''0'' \<and>
   merge_flag example_fs ''/r/.git/MERGE_HEAD'' = ''0'' \<and>
   rebase_progress example_fs ''/r/.git/rebase-apply'' = ''0'' \<and>
   parse_remote ''## main...origin/main'' = Inr \<lparr>ahead = 0, behind = 0\<rparr>"
  using absent_state_defaults[of example_fs "''/r/.git/logs/refs/stash''"
      "''/r/.git/MERGE_HEAD''" "''/r/.git/rebase-apply''" "''## main...origin/main''"]
  by (simp add: example_fs_def join_def)

section \<open>Claims about the path resolver\<close>

text \<open>
  The directories that the resolver examines from \<open>d\<close> upwards: \<open>d\<close>, its parent, and
  so on, up to the directory just below the root. The root ends the walk and is not
  examined.
\<close>

function directories_upward :: "string \<Rightarrow> string list" where
  "directories_upward d = (if d = ''/'' then [] else d # directories_upward (dirname d))"
  by pat_completeness auto
termination
proof (relation "measure (\<lambda>d. if d = ''/'' then 0 else Suc (length d))")
  show "wf (measure (\<lambda>d. if d = ''/'' then 0 else Suc (length d)))"
    by simp
next
  fix d :: string
  assume "d \<noteq> ''/''"
  then show "(dirname d, d) \<in> measure (\<lambda>d. if d = ''/'' then 0 else Suc (length d))"
    using dirname_shorter[of d] by auto
qed

declare directories_upward.simps [simp del]

lemma find_git_root_loop_first:
  "find_git_root_loop env cwd (join cwd ''.git'') =
     (case find (\<lambda>d. file_exists env (join d ''.git'')) (directories_upward cwd) of
        Some d \<Rightarrow> Inr (join d ''.git'')
      | None \<Rightarrow> Inl (RuntimeError ''Could not find a git directory!''))"
proof (induction cwd rule: directories_upward.induct)
  case (1 d)
  show ?case
  proof (cases "d = ''/''")
    case True
    then show ?thesis
      by (simp add: find_git_root_loop.simps directories_upward.simps)
  next
    case False
    show ?thesis
    proof (cases "file_exists env (join d ''.git'')")
      case True
      with False show ?thesis
        by (subst find_git_root_loop.simps, subst directories_upward.simps) simp
    next
      case no: False
      with False "1.IH" show ?thesis
        by (subst find_git_root_loop.simps, subst directories_upward.simps) simp
    qed
  qed
qed

text \<open>
  Claim C9 (as the code has it). From the current directory \<^verbatim>\<open>find_git_root\<close>
  examines each directory in turn for an entry named \<^verbatim>\<open>.git\<close> and moves to the parent
  when there is none. It returns the path of the entry itself, the first directory
  that has one (the closest to the start) joined with \<^verbatim>\<open>.git\<close>, and not that
  directory; and when the walk reaches the root of the file system without finding
  one it fails with the runtime error \<^verbatim>\<open>Could not find a git directory!\<close>, the
  \<open>NotFound\<close> of the spec. The root itself is where the walk stops and is not
  examined.
\<close>

theorem find_git_root_first_upward:
  assumes "getcwd env = Some cwd"
  shows "find_git_root env =
     (case find (\<lambda>d. file_exists env (join d ''.git'')) (directories_upward cwd) of
        Some d \<Rightarrow> Inr (join d ''.git'')
      | None \<Rightarrow> Inl (RuntimeError ''Could not find a git directory!''))"
  using assms by (simp add: find_git_root_def get_cwd_def find_git_root_loop_first)

theorem find_git_root_first_upward_witness:
  "directories_upward ''/r/w/src'' = [''/r/w/src'', ''/r/w'', ''/r''] \<and>
   find_git_root (example_fs\<lparr>getcwd := Some ''/r/w/src''\<rparr>) = Inr ''/r/.git'' \<and>
   find_git_root
     (example_fs\<lparr>getcwd := Some ''/r/w/src'',
                 file_exists := (\<lambda>p. p = ''/r/.git'' \<or> p = ''/r/w/.git'')\<rparr>) =
     Inr ''/r/w/.git'' \<and>
   find_git_root (example_fs\<lparr>getcwd := Some ''/s/w''\<rparr>) =
     Inl (RuntimeError ''Could not find a git directory!'') \<and>
   find_git_root (example_fs\<lparr>getcwd := Some ''/'', file_exists := (\<lambda>p. p = ''/.git'')\<rparr>) =
     Inl (RuntimeError ''Could not find a git directory!'')"
  using find_git_root_first_upward[of "example_fs\<lparr>getcwd := Some ''/r/w/src''\<rparr>" "''/r/w/src''"]
    find_git_root_first_upward[of "example_fs\<lparr>getcwd := Some ''/r/w/src'',
                 file_exists := (\<lambda>p. p = ''/r/.git'' \<or> p = ''/r/w/.git'')\<rparr>" "''/r/w/src''"]
    find_git_root_first_upward[of "example_fs\<lparr>getcwd := Some ''/s/w''\<rparr>" "''/s/w''"]
    find_git_root_first_upward[of
      "example_fs\<lparr>getcwd := Some ''/'', file_exists := (\<lambda>p. p = ''/.git'')\<rparr>" "''/''"]
  by (simp add: example_fs_def directories_upward.simps dirname_def join_def)

text \<open>
  The claim as stated fails in the repository of \<open>example_fs\<close>: the first directory
  upwards of \<^verbatim>\<open>/r/w\<close> that contains the entry is \<^verbatim>\<open>/r\<close>, and what is returned is
  \<^verbatim>\<open>/r/.git\<close>.
\<close>

theorem find_git_root_directory_counterexample:
  "getcwd example_fs = Some ''/r/w'' \<and>
   find (\<lambda>d. file_exists example_fs (join d ''.git'')) (directories_upward ''/r/w'') =
     Some ''/r'' \<and>
   find_git_root example_fs = Inr ''/r/.git'' \<and>
   find_git_root example_fs \<noteq> Inr ''/r''"
  by (simp add: example_fs_def directories_upward.simps dirname_def join_def
      find_git_root_def get_cwd_def find_git_root_loop.simps)

section \<open>Claims about the output line\<close>

text \<open>
  The fields of a line: what single spaces separate, empty fields included. A line
  has one field more than it has spaces.
\<close>

definition field_count :: "string \<Rightarrow> nat" where
  "field_count out = length (split_when (\<lambda>c. c = CHR '' '') out)"

definition count_spaces :: "string \<Rightarrow> nat" where
  "count_spaces s = length (filter (\<lambda>c. c = CHR '' '') s)"

fun join_fields :: "string list \<Rightarrow> string" where
  "join_fields [] = []"
| "join_fields [f] = f"
| "join_fields (f # g # fs) = f @ '' '' @ join_fields (g # fs)"

lemma length_split_when: "length (split_when P s) = Suc (length (filter P s))"
  by (induction s) (auto split: list.splits simp: split_when_not_Nil)

lemma field_count_spaces: "field_count out = Suc (count_spaces out)"
  by (simp add: field_count_def count_spaces_def length_split_when)

lemma count_spaces_Nil [simp]: "count_spaces [] = 0"
  by (simp add: count_spaces_def)

lemma count_spaces_Cons [simp]:
  "count_spaces (c # s) = (if c = CHR '' '' then 1 else 0) + count_spaces s"
  by (simp add: count_spaces_def)

lemma count_spaces_append [simp]: "count_spaces (a @ b) = count_spaces a + count_spaces b"
  by (simp add: count_spaces_def)

lemma count_spaces_none: "CHR '' '' \<notin> set s \<Longrightarrow> count_spaces s = 0"
  by (induction s) auto

lemma to_string_digits: "set (to_string n) \<subseteq> set ''0123456789''"
proof (induction n rule: to_string.induct)
  case (1 n)
  have digit: "''0123456789'' ! k \<in> set ''0123456789''" if "k < 10" for k
    using that nth_mem[of k "''0123456789''"] by simp
  show ?case
  proof (cases "n < 10")
    case True
    with digit[of n] show ?thesis by (subst to_string.simps) simp
  next
    case False
    with "1.IH" digit[of "n mod 10"] show ?thesis
      by (subst to_string.simps) simp
  qed
qed

lemma to_string_spaces [simp]: "count_spaces (to_string n) = 0"
  using to_string_digits[of n] by (intro count_spaces_none) auto

lemma to_string_int_spaces [simp]: "count_spaces (to_string_int i) = 0"
  by (simp add: to_string_int_def)

lemma first_token_spaces [simp]: "count_spaces (first_token s) = 0"
proof (rule count_spaces_none)
  show "CHR '' '' \<notin> set (first_token s)"
    unfolding first_token_eq by (auto dest!: set_takeWhileD simp: isspace_def)
qed

lemma stash_count_spaces [simp]: "count_spaces (stash_count env stash_file) = 0"
  by (simp add: stash_count_def)

lemma merge_flag_spaces [simp]: "count_spaces (merge_flag env merge_file) = 0"
  by (simp add: merge_flag_def)

lemma rebase_progress_spaces [simp]: "count_spaces (rebase_progress env rebase_d) = 0"
  by (simp add: rebase_progress_def ifstream_open_def good_def extract_string_open
      split: option.splits)

lemma parse_branch_local:
  assumes "parse_branch env line head_file = Inr info"
  shows "local info = 0 \<or> local info = 1"
  using assms
  by (auto simp: parse_branch_def Let_def GBranch_init_def split: sum.splits option.splits
      if_splits)

lemma merge_flag_values: "merge_flag env merge_file = ''0'' \<or> merge_flag env merge_file = ''1''"
  by (simp add: merge_flag_def to_string.simps)

lemmas current_gitstatus_simps =
  current_gitstatus_def find_git_root_def get_cwd_def find_git_root_loop.simps dirname_def
  join_def GPaths_new_def set_tree_d_def GPaths_head_def GPaths_merge_def GPaths_rebase_def
  GPaths_stash_def parse_branch_simps parse_remote_simps parse_stats_def GStats_init_def
  parse_stats_body_def hash_two_places_def HASH_CASE_defs show_GRemote_def show_GStats_def
  to_string_int_def to_string.simps stash_count_def stash_count_loop.simps getline_def
  merge_flag_def rebase_progress_def

text \<open>
  Claim C4 (as the code has it). \<^verbatim>\<open>current_gitstatus\<close> returns a line exactly when
  the repository is found, its paths are resolved, the report has a header line and
  the three parsers return. The line is then made of twelve values with one space
  between two of them, in the order branch, ahead, behind, staged, conflicts,
  changed, untracked, stash count, local, upstream, merge flag, rebase progress,
  where local and the merge flag are \<^verbatim>\<open>0\<close> or \<^verbatim>\<open>1\<close>. The ten other values hold no
  space, and branch and upstream are copied from the header line as they are: the
  line has twelve space-separated fields and one more for every space in branch and
  in upstream.
\<close>

theorem current_gitstatus_line:
  "current_gitstatus env lines = Some (Inr out) \<longleftrightarrow>
   (\<exists>root path info remote stats.
      find_git_root env = Inr root \<and> GPaths_new env root = Some (Inr path) \<and>
      lines \<noteq> [] \<and>
      parse_branch env (lines ! 0) (GPaths_head path) = Inr info \<and>
      parse_remote (lines ! 0) = Inr remote \<and>
      parse_stats lines = Inr stats \<and>
      out = join_fields
        [branch info, to_string_int (ahead remote), to_string_int (behind remote),
         to_string (staged stats), to_string (conflicts stats), to_string (changed stats),
         to_string (untracked stats), stash_count env (GPaths_stash path),
         to_string (local info), upstream info, merge_flag env (GPaths_merge path),
         rebase_progress env (GPaths_rebase path)] \<and>
      (to_string (local info) = ''0'' \<or> to_string (local info) = ''1'') \<and>
      (merge_flag env (GPaths_merge path) = ''0'' \<or>
       merge_flag env (GPaths_merge path) = ''1'') \<and>
      field_count out = 12 + count_spaces (branch info) + count_spaces (upstream info))"
  (is "?returns \<longleftrightarrow> ?parts")
proof
  assume run: ?returns
  then obtain root where root: "find_git_root env = Inr root"
    by (cases "find_git_root env") (auto simp: current_gitstatus_def)
  from run root obtain path where path: "GPaths_new env root = Some (Inr path)"
    by (cases "GPaths_new env root")
      (auto simp: current_gitstatus_def split: sum.splits)
  from run root path have ne: "lines \<noteq> []"
    by (auto simp: current_gitstatus_def)
  from run root path ne obtain info
    where info: "parse_branch env (lines ! 0) (GPaths_head path) = Inr info"
    by (cases "parse_branch env (lines ! 0) (GPaths_head path)")
      (auto simp: current_gitstatus_def)
  from run root path ne info obtain remote
    where remote: "parse_remote (lines ! 0) = Inr remote"
    by (cases "parse_remote (lines ! 0)") (auto simp: current_gitstatus_def)
  from run root path ne info remote obtain stats
    where stats: "parse_stats lines = Inr stats"
    by (cases "parse_stats lines") (auto simp: current_gitstatus_def)
  from run root path ne info remote stats
  have out: "out = join_fields
      [branch info, to_string_int (ahead remote), to_string_int (behind remote),
       to_string (staged stats), to_string (conflicts stats), to_string (changed stats),
       to_string (untracked stats), stash_count env (GPaths_stash path),
       to_string (local info), upstream info, merge_flag env (GPaths_merge path),
       rebase_progress env (GPaths_rebase path)]"
    by (simp add: current_gitstatus_def show_GRemote_def show_GStats_def)
  have loc: "to_string (local info) = ''0'' \<or> to_string (local info) = ''1''"
    using parse_branch_local[OF info] by (elim disjE) (simp_all add: to_string.simps)
  have fields: "field_count out = 12 + count_spaces (branch info) + count_spaces (upstream info)"
    unfolding out by (simp add: field_count_spaces)
  from root path ne info remote stats out loc merge_flag_values fields show ?parts
    by blast
next
  assume ?parts
  then obtain root path info remote stats where
    "find_git_root env = Inr root" "GPaths_new env root = Some (Inr path)" "lines \<noteq> []"
    "parse_branch env (lines ! 0) (GPaths_head path) = Inr info"
    "parse_remote (lines ! 0) = Inr remote" "parse_stats lines = Inr stats"
    "out = join_fields
      [branch info, to_string_int (ahead remote), to_string_int (behind remote),
       to_string (staged stats), to_string (conflicts stats), to_string (changed stats),
       to_string (untracked stats), stash_count env (GPaths_stash path),
       to_string (local info), upstream info, merge_flag env (GPaths_merge path),
       rebase_progress env (GPaths_rebase path)]"
    by blast
  then show ?returns
    by (simp add: current_gitstatus_def show_GRemote_def show_GStats_def)
qed

text \<open>
  The claim as stated fails as soon as the header content holds a space and none of
  the markers, since the content is then the branch as it is: the line has thirteen
  fields. A report of the tool does it too, for a fresh clone of an empty repository,
  where the branch has an upstream and no commit: the line has sixteen fields.
\<close>

theorem current_gitstatus_fields_counterexample:
  "current_gitstatus example_fs [''## my branch''] =
     Some (Inr ''my branch 0 0 0 0 0 0 0 1  0 0'') \<and>
   field_count ''my branch 0 0 0 0 0 0 0 1  0 0'' = 13 \<and>
   current_gitstatus example_fs [''## No commits yet on master...origin/master [gone]''] =
     Some (Inr ''No commits yet on master 0 0 0 0 0 0 0 0 origin/master 0 0'') \<and>
   field_count ''No commits yet on master 0 0 0 0 0 0 0 0 origin/master 0 0'' = 16"
  by (simp add: example_fs_def current_gitstatus_simps field_count_def)

theorem current_gitstatus_line_witness:
  "current_gitstatus busy_fs [''## main...origin/main [ahead 2, behind 3]'', ''?? a'', ''MM b'',
       ''UU c''] =
     Some (Inr ''main 2 3 1 1 1 1 3 0 origin/main 1 2/5'') \<and>
   field_count ''main 2 3 1 1 1 1 3 0 origin/main 1 2/5'' = 12"
proof -
  have run: "current_gitstatus busy_fs
      [''## main...origin/main [ahead 2, behind 3]'', ''?? a'', ''MM b'', ''UU c''] =
      Some (Inr ''main 2 3 1 1 1 1 3 0 origin/main 1 2/5'')"
    by (simp add: busy_fs_def current_gitstatus_simps)
  from current_gitstatus_line[THEN iffD1, OF run] obtain path info where
    "parse_branch busy_fs ''## main...origin/main [ahead 2, behind 3]'' (GPaths_head path) =
       Inr info"
    and "field_count ''main 2 3 1 1 1 1 3 0 origin/main 1 2/5'' =
       12 + count_spaces (branch info) + count_spaces (upstream info)"
    by auto
  then have "field_count ''main 2 3 1 1 1 1 3 0 origin/main 1 2/5'' = 12"
    by (auto simp: parse_branch_simps)
  with run show ?thesis by simp
qed

end
